theory Spec2Isabelle
  imports Complex_Main "HOL-Library.AList"
begin

section \<open>The collaboration relay of \<open>setupWebSocket\<close>\<close>

text \<open>
  The relay keeps two process-wide containers, \<open>rooms\<close> (a \<open>Map\<close> from room id to a
  room, itself a \<open>Map\<close> from user id to socket) and \<open>connections\<close> (a \<open>Set\<close> of sockets),
  and per accepted socket the closure variables \<open>userId\<close>, \<open>currentRoomId\<close> and
  \<open>pingInterval\<close>. Every handler runs to completion (there is no \<open>await\<close> in any of them),
  so a handler is one atomic step on the state below.

  A JavaScript \<open>Map\<close> iterates in insertion order, \<open>set\<close> on a present key keeps its place
  and \<open>set\<close> on an absent key appends: this is \<open>AList.update\<close> on an association list.
\<close>

subsection \<open>Values\<close>

text \<open>
  The values that \<open>JSON.parse\<close> can put into \<open>roomId\<close>, \<open>userId\<close>, \<open>username\<close> and
  \<open>type\<close>: nothing validates a message, so every JSON value can arrive in every field,
  and a property that is absent reads as \<open>undefined\<close>.
  \<^item> A finite number is a rational (every double is one); \<open>-0\<close> is \<open>0\<close> for \<open>!x\<close>, for
    \<open>===\<close>, as a key of a \<open>Map\<close> and in the text \<open>JSON.stringify\<close> writes. A number too
    large for a double parses to an infinity; \<open>NaN\<close> cannot come out of \<open>JSON.parse\<close>.
  \<^item> An object or an array is known by its identity and by whether converting it to a
    string raises, as it does for \<open>{"toString":1}\<close>, whose \<open>toString\<close> is not callable.
    \<open>JSON.parse\<close> makes new objects for every frame, so no two frames of the server carry
    the same identity. The properties of an object play no part in the handlers.
  On these values \<open>===\<close>, \<open>!==\<close> and the key equality of \<open>Map\<close> are equality: by value
  for the primitives, by identity for the objects.
\<close>

datatype jsval =
    JUndefined | JNull | JBool bool | JNum rat | JPosInf | JNegInf | JStr string
  | JObject nat bool

text \<open>JavaScript's \<open>ToBoolean\<close>, as used by \<open>!x\<close> and \<open>x && y\<close>.\<close>

fun truthy :: "jsval \<Rightarrow> bool" where
  "truthy JUndefined = False"
| "truthy JNull = False"
| "truthy (JBool b) = b"
| "truthy (JNum n) = (n \<noteq> 0)"
| "truthy JPosInf = True"
| "truthy JNegInf = True"
| "truthy (JStr s) = (s \<noteq> [])"
| "truthy (JObject i b) = True"

text \<open>
  Whether \<open>ToString\<close> raises on the value: a template literal that interpolates the
  value raises then, before the call of \<open>console.log\<close> or \<open>console.error\<close> it is the
  argument of.
\<close>

fun toString_raises :: "jsval \<Rightarrow> bool" where
  "toString_raises (JObject i b) = b"
| "toString_raises v = False"

text \<open>
  The value of a property in the text that \<open>JSON.stringify\<close> writes: a number that is
  not finite is written as \<open>null\<close>. (A property that is \<open>undefined\<close> is left out, and
  reads as \<open>undefined\<close> again; an object stands for its text.) On the values that a
  message can hold \<open>JSON.stringify\<close> does not raise.
\<close>

fun stringified :: "jsval \<Rightarrow> jsval" where
  "stringified JPosInf = JNull"
| "stringified JNegInf = JNull"
| "stringified v = v"

type_synonym conn = nat

datatype ready_state = CONNECTING | OPEN | CLOSING | CLOSED

text \<open>\<open>CodeCollabMessage\<close>, every field as \<open>JSON.parse\<close> delivers it.\<close>

record message =
  msg_type :: jsval
  msg_roomId :: jsval
  msg_userId :: jsval
  msg_username :: jsval
  msg_content :: jsval
  msg_position :: "(jsval \<times> jsval) option"

text \<open>
  The outcome of \<open>JSON.parse(data.toString())\<close>: a \<open>SyntaxError\<close>, the value \<open>null\<close>
  (reading \<open>message.type\<close> then raises a \<open>TypeError\<close>), or an object. Any other
  value (a number, a string, a boolean, an array) has no property \<open>type\<close> and is handled
  as an object without fields is.
\<close>

datatype frame = Unparseable | ParsedNull | ParsedObject message

text \<open>The message as \<open>JSON.stringify(message)\<close> writes it.\<close>

definition stringified_message :: "message \<Rightarrow> message" where
  "stringified_message m =
     \<lparr> msg_type = stringified (msg_type m), msg_roomId = stringified (msg_roomId m),
       msg_userId = stringified (msg_userId m), msg_username = stringified (msg_username m),
       msg_content = stringified (msg_content m),
       msg_position = map_option (\<lambda>(l, c). (stringified l, stringified c)) (msg_position m) \<rparr>"

text \<open>What the server hands to \<open>send\<close>.\<close>

datatype payload =
    JoinRoomNotice jsval jsval jsval
  | Verbatim message
  | LeaveRoomNotice jsval jsval
  | ErrorNotice string

datatype update_kind = CodeUpdate | CursorUpdate

text \<open>The calls of \<open>console.warn\<close> and \<open>console.error\<close>.\<close>

datatype diagnostic =
    WarnNoRoomContext update_kind
  | ErrorRoomNotFound update_kind jsval
  | ErrorFailedToSend update_kind jsval
  | ErrorMessage
  | ErrorWebSocket
  | ErrorPing

subsection \<open>State\<close>

text \<open>
  \<open>readyState\<close> and \<open>sendThrows\<close> belong to the socket library: the handlers only read
  them. \<open>sent\<close> lists every payload a \<open>send\<close> accepted, \<open>diagnostics\<close> every warning and
  error written, \<open>cleared\<close> every call of \<open>clearInterval\<close>, and \<open>uncaught\<close> counts the
  exceptions that left a handler. \<open>totalConnections\<close> and \<open>activeRooms\<close> are the fields of
  \<open>lastStats\<close>; its \<open>lastPingTime\<close> and the lines written by \<open>console.log\<close> are left out,
  but not the exceptions that building such a line can raise.
\<close>

record relay =
  rooms :: "(jsval \<times> (jsval \<times> conn) list) list"
  connections :: "conn list"
  userId :: "conn \<Rightarrow> jsval"
  currentRoomId :: "conn \<Rightarrow> jsval"
  pingInterval :: "conn \<Rightarrow> bool"
  totalConnections :: nat
  activeRooms :: nat
  readyState :: "conn \<Rightarrow> ready_state"
  sendThrows :: "conn \<Rightarrow> bool"
  sent :: "(conn \<times> payload) list"
  diagnostics :: "diagnostic list"
  cleared :: "conn list"
  uncaught :: nat

definition init :: relay where
  "init = \<lparr> rooms = [], connections = [], userId = (\<lambda>_. JNull),
     currentRoomId = (\<lambda>_. JNull), pingInterval = (\<lambda>_. False),
     totalConnections = 0, activeRooms = 0, readyState = (\<lambda>_. CONNECTING),
     sendThrows = (\<lambda>_. False), sent = [], diagnostics = [], cleared = [],
     uncaught = 0 \<rparr>"

definition room_ids :: "relay \<Rightarrow> jsval list" where
  "room_ids s = map fst (rooms s)"

definition participants_of :: "relay \<Rightarrow> jsval \<Rightarrow> (jsval \<times> conn) list" where
  "participants_of s r = (case map_of (rooms s) r of None \<Rightarrow> [] | Some ps \<Rightarrow> ps)"

text \<open>The rooms whose participant mapping holds a reference to the socket.\<close>

definition rooms_of :: "relay \<Rightarrow> conn \<Rightarrow> jsval list" where
  "rooms_of s c = map fst (filter (\<lambda>(r, ps). c \<in> snd ` set ps) (rooms s))"

text \<open>The payloads accepted by \<open>send\<close> between two states.\<close>

definition deliveries :: "relay \<Rightarrow> relay \<Rightarrow> (conn \<times> payload) list" where
  "deliveries s s' = drop (length (sent s)) (sent s')"

subsection \<open>Sending\<close>

text \<open>
  \<open>participant.send(...)\<close> on a socket whose \<open>readyState\<close> is \<open>OPEN\<close> (every call in the
  source is behind that test): it either raises, or takes the payload.
\<close>

definition ws_send :: "relay \<Rightarrow> conn \<Rightarrow> payload \<Rightarrow> relay option" where
  "ws_send s c p =
     (if sendThrows s c then None else Some (s\<lparr>sent := sent s @ [(c, p)]\<rparr>))"

text \<open>
  The \<open>forEach\<close> of the \<open>join_room\<close> case: no \<open>try\<close> around the \<open>send\<close>, so the first
  \<open>send\<close> that raises ends the loop (\<open>Inl\<close>, with the state reached).
\<close>

fun notify_join :: "relay \<Rightarrow> jsval \<Rightarrow> payload \<Rightarrow> (jsval \<times> conn) list \<Rightarrow> relay + relay" where
  "notify_join s uid p [] = Inr s"
| "notify_join s uid p ((participantId, participant) # rest) =
     (if participantId \<noteq> uid \<and> readyState s participant = OPEN then
        (case ws_send s participant p of
           None \<Rightarrow> Inl s
         | Some s' \<Rightarrow> notify_join s' uid p rest)
      else notify_join s uid p rest)"

text \<open>
  The \<open>forEach\<close> of the \<open>code_update\<close> and \<open>cursor_update\<close> cases: each \<open>send\<close> has its
  own \<open>try\<close>, the \<open>catch\<close> writes an error and the loop goes on. The error text
  interpolates the participant's id: if that raises, the exception leaves the \<open>catch\<close>
  and ends the loop.
\<close>

fun fan_out ::
  "update_kind \<Rightarrow> relay \<Rightarrow> jsval \<Rightarrow> payload \<Rightarrow> (jsval \<times> conn) list \<Rightarrow> relay + relay" where
  "fan_out k s uid p [] = Inr s"
| "fan_out k s uid p ((participantId, participant) # rest) =
     (if participantId \<noteq> uid \<and> readyState s participant = OPEN then
        (case ws_send s participant p of
           None \<Rightarrow>
             (if toString_raises participantId then Inl s
              else fan_out k
                     (s\<lparr>diagnostics := diagnostics s @ [ErrorFailedToSend k participantId]\<rparr>)
                     uid p rest)
         | Some s' \<Rightarrow> fan_out k s' uid p rest)
      else fan_out k s uid p rest)"

text \<open>
  The \<open>forEach\<close> of the \<open>close\<close> handler: no test on the user id (the entry has been
  deleted before) and no \<open>try\<close>.
\<close>

fun notify_leave :: "relay \<Rightarrow> payload \<Rightarrow> (jsval \<times> conn) list \<Rightarrow> relay + relay" where
  "notify_leave s p [] = Inr s"
| "notify_leave s p ((participantId, participant) # rest) =
     (if readyState s participant = OPEN then
        (case ws_send s participant p of
           None \<Rightarrow> Inl s
         | Some s' \<Rightarrow> notify_leave s' p rest)
      else notify_leave s p rest)"

subsection \<open>The handlers\<close>

text \<open>\<open>wss.on("connection", ...)\<close>; the library hands the socket over in state \<open>OPEN\<close>.\<close>

definition on_connection :: "relay \<Rightarrow> conn \<Rightarrow> relay" where
  "on_connection s ws =
     (let cs = (if ws \<in> set (connections s) then connections s else connections s @ [ws]) in
      s\<lparr> connections := cs,
         totalConnections := length cs,
         activeRooms := length (rooms s),
         userId := (userId s)(ws := JNull),
         currentRoomId := (currentRoomId s)(ws := JNull),
         pingInterval := (pingInterval s)(ws := True),
         readyState := (readyState s)(ws := OPEN) \<rparr>)"

text \<open>
  The \<open>join_room\<close> case. The log after \<open>rooms.set\<close> interpolates the room id, the log
  after \<open>participants.set\<close> the user id and the room id: either can raise there.
  \<open>rooms.get(currentRoomId)!\<close> is a type assertion only: were the room absent, reading
  \<open>room.participants\<close> would raise. The notice is built by \<open>JSON.stringify\<close>.
\<close>

definition join_room :: "relay \<Rightarrow> conn \<Rightarrow> message \<Rightarrow> relay + relay" where
  "join_room s ws m =
     (let uid = msg_userId m;
          rid = msg_roomId m;
          s1 = s\<lparr> userId := (userId s)(ws := uid),
                  currentRoomId := (currentRoomId s)(ws := rid) \<rparr>;
          s2 = (if map_of (rooms s1) rid = None
                then s1\<lparr>rooms := AList.update rid [] (rooms s1)\<rparr> else s1)
      in if map_of (rooms s1) rid = None \<and> toString_raises rid then Inl s2
         else
           (case map_of (rooms s2) rid of
              None \<Rightarrow> Inl s2
            | Some ps \<Rightarrow>
                (let ps' = AList.update uid ws ps;
                     s3 = s2\<lparr>rooms := AList.update rid ps' (rooms s2)\<rparr>
                 in if toString_raises uid \<or> toString_raises rid then Inl s3
                    else notify_join s3 uid
                           (JoinRoomNotice (stringified rid) (stringified (msg_userId m))
                              (stringified (msg_username m))) ps')))"

text \<open>
  The \<open>code_update\<close> and \<open>cursor_update\<close> cases, which differ in their log texts only.
  The error text for a missing room interpolates the room id. \<open>Inl\<close> when an exception
  leaves the case.
\<close>

definition on_update :: "update_kind \<Rightarrow> relay \<Rightarrow> conn \<Rightarrow> message \<Rightarrow> relay + relay" where
  "on_update k s ws m =
     (if \<not> truthy (currentRoomId s ws) \<or> \<not> truthy (userId s ws) then
        Inr (s\<lparr>diagnostics := diagnostics s @ [WarnNoRoomContext k]\<rparr>)
      else
        (case map_of (rooms s) (currentRoomId s ws) of
           None \<Rightarrow>
             (if toString_raises (currentRoomId s ws) then Inl s
              else Inr (s\<lparr>diagnostics :=
                           diagnostics s @ [ErrorRoomNotFound k (currentRoomId s ws)]\<rparr>))
         | Some ps \<Rightarrow> fan_out k s (userId s ws) (Verbatim (stringified_message m)) ps))"

text \<open>The body of the \<open>try\<close> of the message handler: \<open>Inl\<close> when an exception leaves it.\<close>

definition try_message :: "relay \<Rightarrow> conn \<Rightarrow> frame \<Rightarrow> relay + relay" where
  "try_message s ws data =
     (case data of
        Unparseable \<Rightarrow> Inl s
      | ParsedNull \<Rightarrow> Inl s
      | ParsedObject m \<Rightarrow>
          (if msg_type m = JStr ''join_room'' then join_room s ws m
           else if msg_type m = JStr ''code_update'' then on_update CodeUpdate s ws m
           else if msg_type m = JStr ''cursor_update'' then on_update CursorUpdate s ws m
           else Inr s))"

text \<open>
  The \<open>catch\<close> of the message handler. A \<open>send\<close> that raises here leaves the handler
  (a rejected promise).
\<close>

definition catch_message :: "relay \<Rightarrow> conn \<Rightarrow> relay" where
  "catch_message s ws =
     (let s1 = s\<lparr>diagnostics := diagnostics s @ [ErrorMessage]\<rparr> in
      if readyState s1 ws = OPEN then
        (case ws_send s1 ws (ErrorNotice ''Failed to process message'') of
           None \<Rightarrow> s1\<lparr>uncaught := Suc (uncaught s1)\<rparr>
         | Some s2 \<Rightarrow> s2)
      else s1)"

text \<open>The state in which a body ends, by an exception or not.\<close>

definition ends :: "relay + relay \<Rightarrow> relay" where
  "ends r = (case r of Inl t \<Rightarrow> t | Inr t \<Rightarrow> t)"

definition on_message :: "relay \<Rightarrow> conn \<Rightarrow> frame \<Rightarrow> relay" where
  "on_message s ws data =
     (case try_message s ws data of
        Inr s' \<Rightarrow> s'
      | Inl s' \<Rightarrow> catch_message s' ws)"

text \<open>
  \<open>ws.on("close", ...)\<close>. The log after \<open>participants.delete\<close> interpolates the user
  id and the room id: if that raises, the exception leaves the handler with the entry
  deleted and nothing else done. (The log after \<open>rooms.delete\<close> interpolates the room id
  again, which did not raise just before.) An exception of the \<open>forEach\<close> leaves the
  handler before the last two statements. The notice is built by \<open>JSON.stringify\<close>.
\<close>

definition on_close :: "relay \<Rightarrow> conn \<Rightarrow> relay" where
  "on_close s ws =
     (let cs = removeAll ws (connections s);
          s1 = s\<lparr> connections := cs,
                  cleared := cleared s @ [ws],
                  pingInterval := (pingInterval s)(ws := False),
                  totalConnections := length cs \<rparr>;
          rid = currentRoomId s ws;
          uid = userId s ws;
          finish = (\<lambda>t. t\<lparr>activeRooms := length (rooms t)\<rparr>)
      in if truthy rid \<and> truthy uid then
           (case map_of (rooms s1) rid of
              None \<Rightarrow> finish s1
            | Some ps \<Rightarrow>
                (let ps' = AList.delete uid ps;
                     s2 = s1\<lparr>rooms := AList.update rid ps' (rooms s1)\<rparr>
                 in if toString_raises uid \<or> toString_raises rid then
                      s2\<lparr>uncaught := Suc (uncaught s2)\<rparr>
                    else if length ps' = 0 then
                      finish (s2\<lparr>rooms := AList.delete rid (rooms s2)\<rparr>)
                    else
                      (case notify_leave s2
                              (LeaveRoomNotice (stringified rid) (stringified uid)) ps' of
                         Inl s3 \<Rightarrow> s3\<lparr>uncaught := Suc (uncaught s3)\<rparr>
                       | Inr s3 \<Rightarrow> finish s3)))
         else finish s1)"

text \<open>\<open>ws.on("error", ...)\<close>.\<close>

definition on_error :: "relay \<Rightarrow> conn \<Rightarrow> relay" where
  "on_error s ws =
     (let cs = removeAll ws (connections s) in
      s\<lparr> diagnostics := diagnostics s @ [ErrorWebSocket],
         connections := cs,
         cleared := cleared s @ [ws],
         pingInterval := (pingInterval s)(ws := False),
         totalConnections := length cs \<rparr>)"

text \<open>
  The callback of \<open>setInterval\<close>; \<open>pingThrows\<close> says whether \<open>ws.ping()\<close> raises.
  \<open>ws.terminate()\<close> destroys the socket, which the library shows as \<open>CLOSING\<close> until it
  emits \<open>close\<close>.
\<close>

definition on_tick :: "relay \<Rightarrow> conn \<Rightarrow> bool \<Rightarrow> relay" where
  "on_tick s ws pingThrows =
     (if readyState s ws = OPEN then
        (if pingThrows then
           s\<lparr> diagnostics := diagnostics s @ [ErrorPing],
              readyState := (readyState s)(ws := CLOSING) \<rparr>
         else s)
      else s)"

subsection \<open>Runs\<close>

text \<open>
  The events of a run: the four events the handlers are registered for, the timer, and the
  library changing a socket's \<open>readyState\<close> or the behaviour of its \<open>send\<close>. The timer's
  callback runs only while the interval is set, and the library emits \<open>close\<close> for a
  socket once it is \<open>CLOSED\<close>. A run may take the events in any order: the runs of the
  real server are among them.
\<close>

datatype event =
    Connection conn
  | Message conn frame
  | Close conn
  | Error conn
  | Tick conn bool
  | SetReadyState conn ready_state
  | SetSendThrows conn bool

fun step :: "relay \<Rightarrow> event \<Rightarrow> relay" where
  "step s (Connection ws) = on_connection s ws"
| "step s (Message ws data) = on_message s ws data"
| "step s (Close ws) = on_close (s\<lparr>readyState := (readyState s)(ws := CLOSED)\<rparr>) ws"
| "step s (Error ws) = on_error s ws"
| "step s (Tick ws b) = (if pingInterval s ws then on_tick s ws b else s)"
| "step s (SetReadyState ws st) = s\<lparr>readyState := (readyState s)(ws := st)\<rparr>"
| "step s (SetSendThrows ws b) = s\<lparr>sendThrows := (sendThrows s)(ws := b)\<rparr>"

definition run :: "relay \<Rightarrow> event list \<Rightarrow> relay" where
  "run s evs = foldl step s evs"

text \<open>Building messages.\<close>

definition mk_message :: "string \<Rightarrow> jsval \<Rightarrow> jsval \<Rightarrow> message" where
  "mk_message t rid uid =
     \<lparr> msg_type = JStr t, msg_roomId = rid, msg_userId = uid, msg_username = JStr ''u'',
       msg_content = JUndefined, msg_position = None \<rparr>"

definition is_join :: "frame \<Rightarrow> bool" where
  "is_join data =
     (case data of ParsedObject m \<Rightarrow> msg_type m = JStr ''join_room'' | _ \<Rightarrow> False)"

text \<open>The sockets that a mapping of participants stores under a user id other than \<open>u\<close>.\<close>

definition others :: "jsval \<Rightarrow> (jsval \<times> conn) list \<Rightarrow> conn list" where
  "others u ps = map snd (filter (\<lambda>(pid, c). pid \<noteq> u) ps)"

text \<open>The events that are a \<open>join_room\<close> message on a given socket.\<close>

definition is_join_on :: "conn \<Rightarrow> event \<Rightarrow> bool" where
  "is_join_on c ev = (case ev of Message ws data \<Rightarrow> ws = c \<and> is_join data | _ \<Rightarrow> False)"

text \<open>The events other than a \<open>join_room\<close> message on the socket that names another room.\<close>

definition joins_only :: "conn \<Rightarrow> jsval \<Rightarrow> event \<Rightarrow> bool" where
  "joins_only c r ev =
     (case ev of
        Message ws (ParsedObject m) \<Rightarrow>
          ws = c \<and> msg_type m = JStr ''join_room'' \<longrightarrow> msg_roomId m = r
      | _ \<Rightarrow> True)"

definition join :: "jsval \<Rightarrow> jsval \<Rightarrow> frame" where
  "join rid uid = ParsedObject (mk_message ''join_room'' rid uid)"

definition code_update :: "jsval \<Rightarrow> jsval \<Rightarrow> frame" where
  "code_update rid uid = ParsedObject (mk_message ''code_update'' rid uid)"

definition cursor_update :: "jsval \<Rightarrow> jsval \<Rightarrow> frame" where
  "cursor_update rid uid = ParsedObject (mk_message ''cursor_update'' rid uid)"

text \<open>
  The shape of the directory that every run keeps: room ids are pairwise different, and
  within a room the user ids are pairwise different.
\<close>

definition rooms_ok :: "relay \<Rightarrow> bool" where
  "rooms_ok s =
     (distinct (map fst (rooms s)) \<and>
      list_all (\<lambda>(r, ps). distinct (map fst ps)) (rooms s))"



section \<open>Properties\<close>


subsection \<open>The loops in closed form\<close>

text \<open>
  A loop without \<open>try\<close> delivers to the recipients before the first one whose \<open>send\<close>
  raises. The loop with \<open>try\<close> delivers to every recipient whose \<open>send\<close> does not raise
  and logs the others, up to the first one whose \<open>send\<close> raises and whose id cannot be
  converted to a string. No loop touches anything but \<open>sent\<close> and \<open>diagnostics\<close>.
\<close>

lemma notify_leave_char:
  "notify_leave s p ps =
     (let att = filter (\<lambda>(pid, c). readyState s c = OPEN) ps;
          s' = s\<lparr>sent := sent s @ map (\<lambda>(pid, c). (c, p))
                  (takeWhile (\<lambda>(pid, c). \<not> sendThrows s c) att)\<rparr>
      in if list_ex (\<lambda>(pid, c). sendThrows s c) att then Inl s' else Inr s')"
proof (induction ps arbitrary: s)
  case Nil
  show ?case by simp
next
  case (Cons x ps)
  obtain pid c where x: "x = (pid, c)" by (cases x)
  show ?case
    by (simp add: x Cons.IH ws_send_def Let_def)
qed

lemma notify_join_char:
  "notify_join s uid p ps =
     (let att = filter (\<lambda>(pid, c). pid \<noteq> uid \<and> readyState s c = OPEN) ps;
          s' = s\<lparr>sent := sent s @ map (\<lambda>(pid, c). (c, p))
                  (takeWhile (\<lambda>(pid, c). \<not> sendThrows s c) att)\<rparr>
      in if list_ex (\<lambda>(pid, c). sendThrows s c) att then Inl s' else Inr s')"
proof (induction ps arbitrary: s)
  case Nil
  show ?case by simp
next
  case (Cons x ps)
  obtain pid c where x: "x = (pid, c)" by (cases x)
  show ?case
    by (simp add: x Cons.IH ws_send_def Let_def)
qed

lemma fan_out_char:
  "fan_out k s uid p ps =
     (let att = filter (\<lambda>(pid, c). pid \<noteq> uid \<and> readyState s c = OPEN) ps;
          pre = takeWhile (\<lambda>(pid, c). \<not> (sendThrows s c \<and> toString_raises pid)) att;
          s' = s\<lparr>sent := sent s @ map (\<lambda>(pid, c). (c, p))
                  (filter (\<lambda>(pid, c). \<not> sendThrows s c) pre),
                diagnostics := diagnostics s @ map (\<lambda>(pid, c). ErrorFailedToSend k pid)
                  (filter (\<lambda>(pid, c). sendThrows s c) pre)\<rparr>
      in if list_ex (\<lambda>(pid, c). sendThrows s c \<and> toString_raises pid) att
         then Inl s' else Inr s')"
proof (induction ps arbitrary: s)
  case Nil
  show ?case by simp
next
  case (Cons x ps)
  obtain pid c where x: "x = (pid, c)" by (cases x)
  show ?case
    by (simp add: x Cons.IH ws_send_def Let_def)
qed

lemma ends_simps [simp]: "ends (Inl t) = t" "ends (Inr t) = t"
  by (simp_all add: ends_def)

lemma ends_if [simp]: "ends (if b then Inl t else Inr t) = t"
  by simp

subsection \<open>The directory keeps its shape\<close>

lemma list_all_update:
  "list_all P al \<Longrightarrow> P (k, v) \<Longrightarrow> list_all P (AList.update k v al)"
  by (induction al) auto

lemma list_all_delete: "list_all P al \<Longrightarrow> list_all P (AList.delete k al)"
  by (simp add: AList.delete_eq list_all_iff)

lemma list_all_map_of:
  "list_all P al \<Longrightarrow> map_of al k = Some v \<Longrightarrow> P (k, v)"
  by (auto simp: list_all_iff dest: map_of_SomeD)

lemma rooms_join_room:
  "rooms (ends (join_room s ws m)) =
     (if map_of (rooms s) (msg_roomId m) = None \<and> toString_raises (msg_roomId m)
      then AList.update (msg_roomId m) [] (rooms s)
      else AList.update (msg_roomId m)
             (AList.update (msg_userId m) ws (participants_of s (msg_roomId m))) (rooms s))"
  by (auto simp: join_room_def participants_of_def notify_join_char Let_def AList.update_conv'
      split: option.splits)

lemma rooms_catch_message [simp]: "rooms (catch_message s ws) = rooms s"
  by (simp add: catch_message_def ws_send_def Let_def)

lemma rooms_on_update [simp]: "rooms (ends (on_update k s ws m)) = rooms s"
  by (simp add: on_update_def fan_out_char Let_def split: option.splits)

lemma on_message_ends:
  "on_message s ws data = ends (try_message s ws data)
   \<or> on_message s ws data = catch_message (ends (try_message s ws data)) ws"
  by (cases "try_message s ws data") (simp_all add: on_message_def)

lemma rooms_on_message_ends: "rooms (on_message s ws data) = rooms (ends (try_message s ws data))"
  using on_message_ends [of s ws data] by auto

lemma rooms_on_message:
  "rooms (on_message s ws data) =
     (case data of
        ParsedObject m \<Rightarrow>
          if msg_type m = JStr ''join_room'' then
            (if map_of (rooms s) (msg_roomId m) = None \<and> toString_raises (msg_roomId m)
             then AList.update (msg_roomId m) [] (rooms s)
             else AList.update (msg_roomId m)
                    (AList.update (msg_userId m) ws (participants_of s (msg_roomId m))) (rooms s))
          else rooms s
      | _ \<Rightarrow> rooms s)"
  by (cases data) (simp_all add: rooms_on_message_ends try_message_def rooms_join_room)

lemma rooms_on_close:
  "rooms (on_close s ws) =
     (if truthy (currentRoomId s ws) \<and> truthy (userId s ws) then
        (case map_of (rooms s) (currentRoomId s ws) of
           None \<Rightarrow> rooms s
         | Some ps \<Rightarrow>
             (if AList.delete (userId s ws) ps = []
                 \<and> \<not> toString_raises (userId s ws) \<and> \<not> toString_raises (currentRoomId s ws)
              then AList.delete (currentRoomId s ws) (rooms s)
              else AList.update (currentRoomId s ws) (AList.delete (userId s ws) ps) (rooms s)))
      else rooms s)"
  by (simp add: on_close_def notify_leave_char Let_def AList.delete_update_same
      split: option.splits)

lemma rooms_ok_update:
  assumes "rooms_ok s" and "distinct (map fst ps)"
    and "rooms s' = AList.update r ps (rooms s)"
  shows "rooms_ok s'"
  using assms by (simp add: rooms_ok_def AList.distinct_update list_all_update)

lemma rooms_ok_participants:
  "rooms_ok s \<Longrightarrow> distinct (map fst (participants_of s r))"
  by (auto simp: rooms_ok_def participants_of_def split: option.splits dest: list_all_map_of)

lemma rooms_ok_on_message: "rooms_ok s \<Longrightarrow> rooms_ok (on_message s ws data)"
proof -
  assume ok: "rooms_ok s"
  show ?thesis
  proof (cases data)
    case (ParsedObject m)
    show ?thesis
    proof (cases "msg_type m = JStr ''join_room''")
      case True
      let ?ps = "if map_of (rooms s) (msg_roomId m) = None \<and> toString_raises (msg_roomId m)
                 then [] else AList.update (msg_userId m) ws (participants_of s (msg_roomId m))"
      show ?thesis
        using ok
        by (rule rooms_ok_update [where r = "msg_roomId m" and ps = ?ps])
          (simp_all add: rooms_on_message ParsedObject True AList.distinct_update
            rooms_ok_participants ok)
    next
      case False
      with ok show ?thesis by (simp add: rooms_ok_def rooms_on_message ParsedObject)
    qed
  qed (use ok in \<open>simp_all add: rooms_ok_def rooms_on_message\<close>)
qed

lemma rooms_ok_on_close: "rooms_ok s \<Longrightarrow> rooms_ok (on_close s ws)"
proof -
  assume ok: "rooms_ok s"
  let ?r = "currentRoomId s ws" and ?u = "userId s ws"
  show ?thesis
  proof (cases "truthy ?r \<and> truthy ?u")
    case False
    with ok show ?thesis by (auto simp: rooms_ok_def rooms_on_close)
  next
    case True
    show ?thesis
    proof (cases "map_of (rooms s) ?r")
      case None
      with ok True show ?thesis by (simp add: rooms_ok_def rooms_on_close)
    next
      case (Some ps)
      from ok Some have d: "distinct (map fst ps)"
        by (auto simp: rooms_ok_def dest: list_all_map_of)
      show ?thesis
      proof (cases "AList.delete ?u ps = [] \<and> \<not> toString_raises ?u \<and> \<not> toString_raises ?r")
        case e: True
        with ok True Some show ?thesis
          by (simp add: rooms_ok_def rooms_on_close AList.distinct_delete list_all_delete)
      next
        case e: False
        show ?thesis
          using ok
          by (rule rooms_ok_update [where r = ?r and ps = "AList.delete ?u ps"])
            (use e in \<open>auto simp: d AList.distinct_delete rooms_on_close True Some\<close>)
      qed
    qed
  qed
qed

lemma rooms_ok_readyState [simp]: "rooms_ok (s\<lparr>readyState := f\<rparr>) = rooms_ok s"
  by (simp add: rooms_ok_def)

lemma rooms_of_readyState [simp]: "rooms_of (s\<lparr>readyState := f\<rparr>) c = rooms_of s c"
  by (simp add: rooms_of_def)

lemma rooms_ok_step: "rooms_ok s \<Longrightarrow> rooms_ok (step s ev)"
  by (cases ev)
    (simp_all add: rooms_ok_on_message rooms_ok_on_close,
      simp_all add: rooms_ok_def on_connection_def on_error_def on_tick_def Let_def)

lemma run_snoc: "run s (evs @ [ev]) = step (run s evs) ev"
  by (simp add: run_def)

lemma rooms_ok_init: "rooms_ok init"
  by (simp add: rooms_ok_def init_def)

lemma rooms_ok_run: "rooms_ok (run init evs)"
  by (induction evs rule: rev_induct) (simp_all add: run_snoc rooms_ok_step, simp add: run_def rooms_ok_init)


subsection \<open>Evaluating runs\<close>

lemmas handler_defs = run_def init_def on_connection_def on_message_def try_message_def
  join_room_def on_update_def catch_message_def on_close_def on_error_def on_tick_def
  mk_message_def ws_send_def Let_def participants_of_def room_ids_def rooms_of_def
  deliveries_def join_def code_update_def cursor_update_def stringified_message_def

text \<open>
  The scenario of two participants: A (connection 1, user 7) and B (connection 2, user 8)
  join r1, A first. B's join sends A the notice naming B; A's \<open>code_update\<close> reaches B
  alone; B's disconnect sends A the \<open>leave_room\<close> naming B and leaves one participant;
  A's disconnect removes the room.
\<close>

lemma scenario_two_participants:
  "sent (run init [Connection 1, Connection 2, Message 1 (join (JStr ''r1'') (JNum 7)),
       Message 2 (join (JStr ''r1'') (JNum 8)), Message 1 (code_update (JStr ''r1'') (JNum 7)),
       Close 2])
     = [(1, JoinRoomNotice (JStr ''r1'') (JNum 8) (JStr ''u'')),
        (2, Verbatim (mk_message ''code_update'' (JStr ''r1'') (JNum 7))),
        (1, LeaveRoomNotice (JStr ''r1'') (JNum 8))]
   \<and> rooms (run init [Connection 1, Connection 2, Message 1 (join (JStr ''r1'') (JNum 7)),
       Message 2 (join (JStr ''r1'') (JNum 8)), Message 1 (code_update (JStr ''r1'') (JNum 7)),
       Close 2]) = [(JStr ''r1'', [(JNum 7, 1)])]
   \<and> rooms (run init [Connection 1, Connection 2, Message 1 (join (JStr ''r1'') (JNum 7)),
       Message 2 (join (JStr ''r1'') (JNum 8)), Message 1 (code_update (JStr ''r1'') (JNum 7)),
       Close 2, Close 1]) = []
   \<and> sent (run init [Connection 1, Connection 2, Message 1 (join (JStr ''r1'') (JNum 7)),
       Message 2 (join (JStr ''r1'') (JNum 8)), Message 1 (code_update (JStr ''r1'') (JNum 7)),
       Close 2, Close 1])
     = sent (run init [Connection 1, Connection 2, Message 1 (join (JStr ''r1'') (JNum 7)),
       Message 2 (join (JStr ''r1'') (JNum 8)), Message 1 (code_update (JStr ''r1'') (JNum 7)),
       Close 2])"
  by (simp add: handler_defs)

subsection \<open>What the handlers leave alone\<close>

lemma fields_catch_message [simp]:
  "connections (catch_message s ws) = connections s"
  "userId (catch_message s ws) = userId s"
  "currentRoomId (catch_message s ws) = currentRoomId s"
  "pingInterval (catch_message s ws) = pingInterval s"
  "readyState (catch_message s ws) = readyState s"
  "sendThrows (catch_message s ws) = sendThrows s"
  "cleared (catch_message s ws) = cleared s"
  by (simp_all add: catch_message_def ws_send_def Let_def)

lemma fields_on_update [simp]:
  "connections (ends (on_update k s ws m)) = connections s"
  "userId (ends (on_update k s ws m)) = userId s"
  "currentRoomId (ends (on_update k s ws m)) = currentRoomId s"
  "pingInterval (ends (on_update k s ws m)) = pingInterval s"
  "readyState (ends (on_update k s ws m)) = readyState s"
  "sendThrows (ends (on_update k s ws m)) = sendThrows s"
  "cleared (ends (on_update k s ws m)) = cleared s"
  by (simp_all add: on_update_def fan_out_char Let_def split: option.splits)

lemma fields_join_room [simp]:
  "connections (ends (join_room s ws m)) = connections s"
  "userId (ends (join_room s ws m)) = (userId s)(ws := msg_userId m)"
  "currentRoomId (ends (join_room s ws m)) = (currentRoomId s)(ws := msg_roomId m)"
  "pingInterval (ends (join_room s ws m)) = pingInterval s"
  "readyState (ends (join_room s ws m)) = readyState s"
  "sendThrows (ends (join_room s ws m)) = sendThrows s"
  "cleared (ends (join_room s ws m)) = cleared s"
  by (simp_all add: join_room_def notify_join_char Let_def split: option.splits)

lemma fields_try_message [simp]:
  "connections (ends (try_message s ws data)) = connections s"
  "pingInterval (ends (try_message s ws data)) = pingInterval s"
  "readyState (ends (try_message s ws data)) = readyState s"
  "sendThrows (ends (try_message s ws data)) = sendThrows s"
  "cleared (ends (try_message s ws data)) = cleared s"
  by (simp_all add: try_message_def split: frame.splits)

lemma fields_on_message [simp]:
  "connections (on_message s ws data) = connections s"
  "pingInterval (on_message s ws data) = pingInterval s"
  "readyState (on_message s ws data) = readyState s"
  "sendThrows (on_message s ws data) = sendThrows s"
  "cleared (on_message s ws data) = cleared s"
  using on_message_ends [of s ws data] by auto

lemma binding_on_message:
  "userId (on_message s ws data) =
     (case data of
        ParsedObject m \<Rightarrow>
          if msg_type m = JStr ''join_room'' then (userId s)(ws := msg_userId m) else userId s
      | _ \<Rightarrow> userId s)"
  "currentRoomId (on_message s ws data) =
     (case data of
        ParsedObject m \<Rightarrow>
          if msg_type m = JStr ''join_room'' then (currentRoomId s)(ws := msg_roomId m)
          else currentRoomId s
      | _ \<Rightarrow> currentRoomId s)"
proof -
  have u: "userId (on_message s ws data) = userId (ends (try_message s ws data))"
    and r: "currentRoomId (on_message s ws data) = currentRoomId (ends (try_message s ws data))"
    using on_message_ends [of s ws data] by auto
  show "userId (on_message s ws data) =
     (case data of
        ParsedObject m \<Rightarrow>
          if msg_type m = JStr ''join_room'' then (userId s)(ws := msg_userId m) else userId s
      | _ \<Rightarrow> userId s)"
    by (simp add: u try_message_def split: frame.splits)
  show "currentRoomId (on_message s ws data) =
     (case data of
        ParsedObject m \<Rightarrow>
          if msg_type m = JStr ''join_room'' then (currentRoomId s)(ws := msg_roomId m)
          else currentRoomId s
      | _ \<Rightarrow> currentRoomId s)"
    by (simp add: r try_message_def split: frame.splits)
qed

lemma binding_on_close [simp]:
  "userId (on_close s ws) = userId s" "currentRoomId (on_close s ws) = currentRoomId s"
  by (simp_all add: on_close_def notify_leave_char Let_def split: option.splits)

lemma connections_on_close [simp]:
  "connections (on_close s ws) = removeAll ws (connections s)"
  by (simp add: on_close_def notify_leave_char Let_def split: option.splits)

lemma timers_on_close [simp]:
  "pingInterval (on_close s ws) = (pingInterval s)(ws := False)"
  "cleared (on_close s ws) = cleared s @ [ws]"
  "readyState (on_close s ws) = readyState s"
  "sendThrows (on_close s ws) = sendThrows s"
  by (simp_all add: on_close_def notify_leave_char Let_def split: option.splits)


subsection \<open>Rooms and their participants\<close>



lemma room_ids_on_close:
  assumes "\<not> toString_raises (userId s ws)" and "\<not> toString_raises (currentRoomId s ws)"
  shows "room_ids (on_close s ws) =
     (if truthy (currentRoomId s ws) \<and> truthy (userId s ws)
         \<and> currentRoomId s ws \<in> set (room_ids s)
         \<and> AList.delete (userId s ws) (participants_of s (currentRoomId s ws)) = []
      then removeAll (currentRoomId s ws) (room_ids s) else room_ids s)"
proof (cases "map_of (rooms s) (currentRoomId s ws)")
  case None
  then have "currentRoomId s ws \<notin> set (room_ids s)"
    by (simp add: room_ids_def map_of_eq_None_iff)
  with None show ?thesis
    by (simp add: room_ids_def rooms_on_close)
next
  case (Some ps)
  then have "currentRoomId s ws \<in> set (room_ids s)"
    by (auto simp: room_ids_def dest: map_of_SomeD intro: rev_image_eqI)
  with Some assms show ?thesis
    by (simp add: room_ids_def rooms_on_close participants_of_def AList.update_keys
        AList.delete_keys)
qed







subsection \<open>Updates before a join\<close>

lemma unbound_step:
  assumes "userId s c = JNull \<and> currentRoomId s c = JNull" and "\<not> is_join_on c ev"
  shows "userId (step s ev) c = JNull \<and> currentRoomId (step s ev) c = JNull"
  using assms
  by (cases ev)
    (auto simp: is_join_on_def is_join_def binding_on_message on_connection_def on_error_def
      on_tick_def Let_def split: frame.splits)

lemma unbound_run:
  "\<forall>ev \<in> set evs. \<not> is_join_on c ev \<Longrightarrow>
     userId (run init evs) c = JNull \<and> currentRoomId (run init evs) c = JNull"
proof (induction evs rule: rev_induct)
  case Nil
  show ?case by (simp add: run_def init_def)
next
  case (snoc ev evs)
  then show ?case by (simp add: run_snoc unbound_step)
qed

text \<open>
  C8. On a connection that has processed no \<open>join_room\<close> so far, a \<open>code_update\<close> or a
  \<open>cursor_update\<close> changes nothing but the log, which gets the warning: nothing is sent
  to anyone (no broadcast, no error notice), and rooms, registry and bindings stay as
  they are.
\<close>

theorem update_before_join_dropped:
  assumes "\<forall>ev \<in> set evs. \<not> is_join_on c ev"
  shows "(msg_type m = JStr ''code_update'' \<longrightarrow>
            on_message (run init evs) c (ParsedObject m) =
              (run init evs)\<lparr>diagnostics :=
                 diagnostics (run init evs) @ [WarnNoRoomContext CodeUpdate]\<rparr>)
       \<and> (msg_type m = JStr ''cursor_update'' \<longrightarrow>
            on_message (run init evs) c (ParsedObject m) =
              (run init evs)\<lparr>diagnostics :=
                 diagnostics (run init evs) @ [WarnNoRoomContext CursorUpdate]\<rparr>)"
  using unbound_run [OF assms]
  by (simp add: on_message_def try_message_def on_update_def)

theorem update_before_join_dropped_witness:
  "sent (on_message (run init [Connection 1, Connection 2, Message 2 (join (JStr ''r1'') (JNum 5))])
          1 (code_update (JStr ''r1'') (JNum 7))) = []
   \<and> diagnostics (on_message
          (run init [Connection 1, Connection 2, Message 2 (join (JStr ''r1'') (JNum 5))])
          1 (code_update (JStr ''r1'') (JNum 7))) = [WarnNoRoomContext CodeUpdate]
   \<and> rooms (on_message (run init [Connection 1, Connection 2, Message 2 (join (JStr ''r1'') (JNum 5))])
          1 (cursor_update (JStr ''r1'') (JNum 7))) = [(JStr ''r1'', [(JNum 5, 2)])]"
proof -
  have h: "\<forall>ev \<in> set [Connection 1, Connection 2, Message 2 (join (JStr ''r1'') (JNum 5))].
             \<not> is_join_on 1 ev"
    by (simp add: is_join_on_def)
  show ?thesis
    using update_before_join_dropped [OF h, of "mk_message ''code_update'' (JStr ''r1'') (JNum 7)"]
      update_before_join_dropped [OF h, of "mk_message ''cursor_update'' (JStr ''r1'') (JNum 7)"]
    by (simp add: handler_defs)
qed


subsection \<open>Joining\<close>

lemma participants_of_update:
  "rooms s' = AList.update r ps (rooms s) \<Longrightarrow>
     participants_of s' r' = (if r' = r then ps else participants_of s r')"
  by (simp add: participants_of_def AList.update_conv')

lemma participants_of_join:
  assumes "msg_type m = JStr ''join_room''"
  shows "participants_of (on_message s ws (ParsedObject m)) r =
           (if r = msg_roomId m then
              (if map_of (rooms s) (msg_roomId m) = None \<and> toString_raises (msg_roomId m)
               then []
               else AList.update (msg_userId m) ws (participants_of s (msg_roomId m)))
            else participants_of s r)"
  by (rule participants_of_update) (simp add: rooms_on_message assms)

lemma count_list_distinct: "distinct xs \<Longrightarrow> x \<in> set xs \<Longrightarrow> count_list xs x = 1"
  by (induction xs) auto

text \<open>
  C9. When user id \<open>u\<close> is in room \<open>r\<close> through connection \<open>c1\<close>, a \<open>join_room\<close> for
  \<open>u\<close> in \<open>r\<close> that arrives on another connection \<open>c2\<close> puts \<open>c2\<close> in the place of
  \<open>c1\<close>: the user ids of the room are the same as before, \<open>u\<close> occurs among them once,
  and \<open>c1\<close> keeps its registry entry, its \<open>readyState\<close>, its timer and its binding
  (no \<open>clearInterval\<close> is called either).
\<close>

theorem duplicate_join_replaces:
  assumes "map_of (participants_of (run init evs) r) u = Some c1"
    and "c1 \<noteq> c2"
    and "msg_type m = JStr ''join_room''" and "msg_roomId m = r" and "msg_userId m = u"
  shows "map_of (participants_of (on_message (run init evs) c2 (ParsedObject m)) r) u = Some c2
       \<and> map fst (participants_of (on_message (run init evs) c2 (ParsedObject m)) r) =
           map fst (participants_of (run init evs) r)
       \<and> count_list (map fst (participants_of (on_message (run init evs) c2 (ParsedObject m)) r)) u = 1
       \<and> connections (on_message (run init evs) c2 (ParsedObject m)) = connections (run init evs)
       \<and> readyState (on_message (run init evs) c2 (ParsedObject m)) = readyState (run init evs)
       \<and> pingInterval (on_message (run init evs) c2 (ParsedObject m)) = pingInterval (run init evs)
       \<and> cleared (on_message (run init evs) c2 (ParsedObject m)) = cleared (run init evs)
       \<and> userId (on_message (run init evs) c2 (ParsedObject m)) c1 = userId (run init evs) c1
       \<and> currentRoomId (on_message (run init evs) c2 (ParsedObject m)) c1 =
           currentRoomId (run init evs) c1"
proof -
  let ?s = "run init evs"
  let ?ps = "participants_of ?s r"
  from assms(1) obtain ps0 where "map_of (rooms ?s) r = Some ps0"
    by (auto simp: participants_of_def split: option.splits)
  then have ps': "participants_of (on_message ?s c2 (ParsedObject m)) r = AList.update u c2 ?ps"
    using participants_of_join [of m ?s c2 r] assms(3-5) by auto
  from assms(1) have mem: "u \<in> fst ` set ?ps"
    by (auto dest: map_of_SomeD intro: rev_image_eqI)
  then have keys: "map fst (AList.update u c2 ?ps) = map fst ?ps"
    by (simp add: AList.update_keys)
  have "distinct (map fst ?ps)"
    by (rule rooms_ok_participants [OF rooms_ok_run])
  with mem have once: "count_list (map fst ?ps) u = 1"
    by (simp add: count_list_distinct)
  show ?thesis
    using assms(2,3) keys once
    by (simp add: ps' AList.update_conv' binding_on_message)
qed

theorem duplicate_join_replaces_witness:
  "participants_of (run init [Connection 1, Connection 2, Message 1 (join (JStr ''r1'') (JNum 7))])
      (JStr ''r1'') = [(JNum 7, 1)]
   \<and> participants_of (on_message
        (run init [Connection 1, Connection 2, Message 1 (join (JStr ''r1'') (JNum 7))]) 2
        (join (JStr ''r1'') (JNum 7))) (JStr ''r1'') = [(JNum 7, 2)]
   \<and> connections (on_message
        (run init [Connection 1, Connection 2, Message 1 (join (JStr ''r1'') (JNum 7))]) 2
        (join (JStr ''r1'') (JNum 7))) = [1, 2]
   \<and> pingInterval (on_message
        (run init [Connection 1, Connection 2, Message 1 (join (JStr ''r1'') (JNum 7))]) 2
        (join (JStr ''r1'') (JNum 7))) 1
   \<and> readyState (on_message
        (run init [Connection 1, Connection 2, Message 1 (join (JStr ''r1'') (JNum 7))]) 2
        (join (JStr ''r1'') (JNum 7))) 1 = OPEN"
proof -
  have h: "map_of (participants_of
      (run init [Connection 1, Connection 2, Message 1 (join (JStr ''r1'') (JNum 7))])
      (JStr ''r1'')) (JNum 7) = Some 1"
    by (simp add: handler_defs)
  have n: "(1::nat) \<noteq> 2" by simp
  show ?thesis
    using duplicate_join_replaces [OF h n, of "mk_message ''join_room'' (JStr ''r1'') (JNum 7)"]
    by (simp add: handler_defs)
qed




subsection \<open>Closing\<close>

lemma sent_on_close:
  "sent (on_close s ws) =
     (if truthy (currentRoomId s ws) \<and> truthy (userId s ws) then
        (case map_of (rooms s) (currentRoomId s ws) of
           None \<Rightarrow> sent s
         | Some ps \<Rightarrow>
             (if toString_raises (userId s ws) \<or> toString_raises (currentRoomId s ws)
              then sent s
              else sent s @
                map (\<lambda>(pid, c). (c, LeaveRoomNotice (stringified (currentRoomId s ws))
                                      (stringified (userId s ws))))
                  (takeWhile (\<lambda>(pid, c). \<not> sendThrows s c)
                    (filter (\<lambda>(pid, c). readyState s c = OPEN)
                      (AList.delete (userId s ws) ps)))))
      else sent s)"
  by (simp add: on_close_def notify_leave_char Let_def split: option.splits)

lemma length_delete:
  "distinct (map fst ps) \<Longrightarrow> u \<in> fst ` set ps \<Longrightarrow>
     length (AList.delete u ps) = length ps - 1"
proof (induction ps)
  case Nil
  then show ?case by simp
next
  case (Cons x ps)
  show ?case
  proof (cases "fst x = u")
    case True
    with Cons.prems have "u \<notin> fst ` set ps" by auto
    then have "AList.delete u ps = ps" by simp
    with True show ?thesis by (cases x) simp
  next
    case False
    with Cons.prems have mem: "u \<in> fst ` set ps" by auto
    then have "ps \<noteq> []" by auto
    then have "0 < length ps" by simp
    with False Cons.IH mem Cons.prems(1) show ?thesis by (cases x) simp
  qed
qed

lemma participants_of_on_close:
  assumes "rooms_ok s" and "truthy (currentRoomId s ws)" and "truthy (userId s ws)"
  shows "participants_of (on_close s ws) r =
           (if r = currentRoomId s ws then AList.delete (userId s ws) (participants_of s r)
            else participants_of s r)"
proof (cases "map_of (rooms s) (currentRoomId s ws)")
  case None
  with assms show ?thesis
    by (auto simp: participants_of_def rooms_on_close)
next
  case (Some ps)
  from assms(1) have d: "distinct (map fst (rooms s))" by (simp add: rooms_ok_def)
  show ?thesis
  proof (cases "AList.delete (userId s ws) ps = []
      \<and> \<not> toString_raises (userId s ws) \<and> \<not> toString_raises (currentRoomId s ws)")
    case True
    with assms Some d show ?thesis
      by (auto simp: participants_of_def rooms_on_close AList.delete_conv')
  next
    case False
    with assms Some show ?thesis
      by (auto simp: participants_of_def rooms_on_close AList.update_conv')
  qed
qed

lemma on_close_bound:
  assumes ok: "rooms_ok s"
    and r: "truthy (currentRoomId s ws)" and u: "truthy (userId s ws)"
    and pu: "\<not> toString_raises (userId s ws)"
    and pr: "\<not> toString_raises (currentRoomId s ws)"
    and mem: "map_of (participants_of s (currentRoomId s ws)) (userId s ws) = Some c"
    and quiet: "\<forall>(pid, c') \<in> set (AList.delete (userId s ws) (participants_of s (currentRoomId s ws))).
                  readyState s c' = OPEN \<longrightarrow> \<not> sendThrows s c'"
  shows "participants_of (on_close s ws) (currentRoomId s ws) =
           AList.delete (userId s ws) (participants_of s (currentRoomId s ws))"
    and "map_of (participants_of (on_close s ws) (currentRoomId s ws)) (userId s ws) = None"
    and "length (participants_of (on_close s ws) (currentRoomId s ws)) =
           length (participants_of s (currentRoomId s ws)) - 1"
    and "(currentRoomId s ws \<in> set (room_ids (on_close s ws))) =
           (1 < length (participants_of s (currentRoomId s ws)))"
    and "deliveries s (on_close s ws) =
           map (\<lambda>(pid, c'). (c', LeaveRoomNotice (stringified (currentRoomId s ws))
                                    (stringified (userId s ws))))
             (filter (\<lambda>(pid, c'). readyState s c' = OPEN)
               (AList.delete (userId s ws) (participants_of s (currentRoomId s ws))))"
proof -
  let ?r = "currentRoomId s ws" and ?u = "userId s ws"
  let ?ps = "participants_of s ?r"
  show p: "participants_of (on_close s ws) ?r = AList.delete ?u ?ps"
    using participants_of_on_close [OF ok r u, of ?r] by simp
  show "map_of (participants_of (on_close s ws) ?r) ?u = None"
    by (simp add: p AList.delete_conv')
  from mem have in_keys: "?u \<in> fst ` set ?ps"
    by (auto dest: map_of_SomeD intro: rev_image_eqI)
  have d: "distinct (map fst ?ps)" by (rule rooms_ok_participants [OF ok])
  show len: "length (participants_of (on_close s ws) ?r) = length ?ps - 1"
    by (simp add: p length_delete [OF d in_keys])
  from in_keys have "?ps \<noteq> []" by auto
  then have pos: "0 < length ?ps" by simp
  from mem obtain ps where ps: "map_of (rooms s) ?r = Some ps"
    by (cases "map_of (rooms s) ?r") (simp_all add: participants_of_def)
  then have eq: "?ps = ps" by (simp add: participants_of_def)
  from ps have "?r \<in> set (room_ids s)"
    by (auto simp: room_ids_def dest: map_of_SomeD intro: rev_image_eqI)
  moreover from ok have "distinct (room_ids s)" by (simp add: rooms_ok_def room_ids_def)
  moreover have "(AList.delete ?u ?ps = []) = (\<not> 1 < length ?ps)"
  proof -
    have "(AList.delete ?u ?ps = []) = (length (AList.delete ?u ?ps) = 0)" by simp
    also have "\<dots> = (length ?ps - 1 = 0)" by (simp only: length_delete [OF d in_keys])
    also have "\<dots> = (\<not> 1 < length ?ps)" using pos by arith
    finally show ?thesis .
  qed
  ultimately show "(?r \<in> set (room_ids (on_close s ws))) = (1 < length ?ps)"
    using room_ids_on_close [OF pu pr] r u by simp
  let ?att = "filter (\<lambda>(pid, c'). readyState s c' = OPEN) (AList.delete ?u ?ps)"
  from quiet have "\<forall>x \<in> set ?att. (\<lambda>(pid, c'). \<not> sendThrows s c') x" by auto
  then have tw: "takeWhile (\<lambda>(pid, c'). \<not> sendThrows s c') ?att = ?att"
    by (simp only: takeWhile_eq_all_conv)
  have "sent (on_close s ws) =
          sent s @ map (\<lambda>(pid, c'). (c', LeaveRoomNotice (stringified ?r) (stringified ?u)))
            (takeWhile (\<lambda>(pid, c'). \<not> sendThrows s c') ?att)"
    by (simp add: sent_on_close r u pu pr ps eq [symmetric])
  then have "sent (on_close s ws) =
          sent s @ map (\<lambda>(pid, c'). (c', LeaveRoomNotice (stringified ?r) (stringified ?u))) ?att"
    by (simp only: tw)
  then show "deliveries s (on_close s ws) =
          map (\<lambda>(pid, c'). (c', LeaveRoomNotice (stringified ?r) (stringified ?u))) ?att"
    by (simp add: deliveries_def)
qed


text \<open>
  C2, as the code has it. Let the closing connection be bound to a room id and a user
  id that are both truthy and can both be converted to strings, let it be the connection
  stored under that user id in the room, and let no \<open>send\<close> to a remaining participant
  raise. Then the close handler takes the connection out of the registry and the user id
  out of the room; of \<open>N\<close> participants \<open>N - 1\<close> remain; the room stays in the directory
  exactly when \<open>N > 1\<close>; and the \<open>leave_room\<close> notice, carrying the room id and the user
  id as \<open>JSON.stringify\<close> writes them, goes to the remaining participants whose socket
  is \<open>OPEN\<close>, to each once and to nobody else.
\<close>

theorem close_removes_bound_participant:
  assumes "rooms_ok s"
    and "truthy (currentRoomId s ws)" and "truthy (userId s ws)"
    and "\<not> toString_raises (userId s ws)" and "\<not> toString_raises (currentRoomId s ws)"
    and "map_of (participants_of s (currentRoomId s ws)) (userId s ws) = Some ws"
    and "\<forall>(pid, c') \<in> set (AList.delete (userId s ws) (participants_of s (currentRoomId s ws))).
           readyState s c' = OPEN \<longrightarrow> \<not> sendThrows s c'"
  shows "ws \<notin> set (connections (on_close s ws))
       \<and> map_of (participants_of (on_close s ws) (currentRoomId s ws)) (userId s ws) = None
       \<and> participants_of (on_close s ws) (currentRoomId s ws) =
           AList.delete (userId s ws) (participants_of s (currentRoomId s ws))
       \<and> length (participants_of (on_close s ws) (currentRoomId s ws)) =
           length (participants_of s (currentRoomId s ws)) - 1
       \<and> (currentRoomId s ws \<in> set (room_ids (on_close s ws))) =
           (1 < length (participants_of s (currentRoomId s ws)))
       \<and> deliveries s (on_close s ws) =
           map (\<lambda>(pid, c'). (c', LeaveRoomNotice (stringified (currentRoomId s ws))
                                    (stringified (userId s ws))))
             (filter (\<lambda>(pid, c'). readyState s c' = OPEN)
               (AList.delete (userId s ws) (participants_of s (currentRoomId s ws))))"
  using on_close_bound [OF assms] by simp

theorem close_removes_bound_participant_witness:
  "participants_of
      (run init [Connection 1, Connection 2, Connection 3, Message 1 (join (JStr ''r1'') (JNum 7)),
         Message 2 (join (JStr ''r1'') (JNum 8)), Message 3 (join (JStr ''r1'') (JNum 9)),
         SetReadyState 3 CLOSING]) (JStr ''r1'') = [(JNum 7, 1), (JNum 8, 2), (JNum 9, 3)]
   \<and> participants_of (on_close
      (run init [Connection 1, Connection 2, Connection 3, Message 1 (join (JStr ''r1'') (JNum 7)),
         Message 2 (join (JStr ''r1'') (JNum 8)), Message 3 (join (JStr ''r1'') (JNum 9)),
         SetReadyState 3 CLOSING]) 1) (JStr ''r1'') = [(JNum 8, 2), (JNum 9, 3)]
   \<and> connections (on_close
      (run init [Connection 1, Connection 2, Connection 3, Message 1 (join (JStr ''r1'') (JNum 7)),
         Message 2 (join (JStr ''r1'') (JNum 8)), Message 3 (join (JStr ''r1'') (JNum 9)),
         SetReadyState 3 CLOSING]) 1) = [2, 3]
   \<and> deliveries
      (run init [Connection 1, Connection 2, Connection 3, Message 1 (join (JStr ''r1'') (JNum 7)),
         Message 2 (join (JStr ''r1'') (JNum 8)), Message 3 (join (JStr ''r1'') (JNum 9)),
         SetReadyState 3 CLOSING])
      (on_close
      (run init [Connection 1, Connection 2, Connection 3, Message 1 (join (JStr ''r1'') (JNum 7)),
         Message 2 (join (JStr ''r1'') (JNum 8)), Message 3 (join (JStr ''r1'') (JNum 9)),
         SetReadyState 3 CLOSING]) 1) = [(2, LeaveRoomNotice (JStr ''r1'') (JNum 7))]"
proof -
  let ?s = "run init [Connection 1, Connection 2, Connection 3,
         Message 1 (join (JStr ''r1'') (JNum 7)),
         Message 2 (join (JStr ''r1'') (JNum 8)), Message 3 (join (JStr ''r1'') (JNum 9)),
         SetReadyState 3 CLOSING]"
  have ok: "rooms_ok ?s" by (rule rooms_ok_run)
  have r: "truthy (currentRoomId ?s 1)" and u: "truthy (userId ?s 1)"
    and pu: "\<not> toString_raises (userId ?s 1)" and pr: "\<not> toString_raises (currentRoomId ?s 1)"
    by (simp_all add: handler_defs)
  have mem: "map_of (participants_of ?s (currentRoomId ?s 1)) (userId ?s 1) = Some 1"
    by (simp add: handler_defs)
  have quiet: "\<forall>(pid, c') \<in> set (AList.delete (userId ?s 1)
        (participants_of ?s (currentRoomId ?s 1))). readyState ?s c' = OPEN \<longrightarrow> \<not> sendThrows ?s c'"
    by (simp add: handler_defs)
  show ?thesis
    using close_removes_bound_participant [OF ok r u pu pr mem quiet]
    by (simp add: handler_defs)
qed

text \<open>
  The claim as stated fails where a remaining participant's socket is not \<open>OPEN\<close>:
  user 7 and user 8 are in room r1, the socket of user 8 is \<open>CLOSING\<close>, the connection
  of user 7 closes. User 8 remains, and is sent nothing.
\<close>

theorem close_skips_participant_not_open:
  "participants_of
      (run init [Connection 1, Connection 2, Message 1 (join (JStr ''r1'') (JNum 7)),
         Message 2 (join (JStr ''r1'') (JNum 8)), SetReadyState 2 CLOSING]) (JStr ''r1'')
     = [(JNum 7, 1), (JNum 8, 2)]
   \<and> participants_of (step
      (run init [Connection 1, Connection 2, Message 1 (join (JStr ''r1'') (JNum 7)),
         Message 2 (join (JStr ''r1'') (JNum 8)), SetReadyState 2 CLOSING]) (Close 1))
        (JStr ''r1'') = [(JNum 8, 2)]
   \<and> deliveries
      (run init [Connection 1, Connection 2, Message 1 (join (JStr ''r1'') (JNum 7)),
         Message 2 (join (JStr ''r1'') (JNum 8)), SetReadyState 2 CLOSING])
      (step
      (run init [Connection 1, Connection 2, Message 1 (join (JStr ''r1'') (JNum 7)),
         Message 2 (join (JStr ''r1'') (JNum 8)), SetReadyState 2 CLOSING]) (Close 1)) = []"
  by (simp add: handler_defs)


text \<open>
  Removal on close goes by the ids the closing connection is bound to, whatever socket
  the room stores under the user id. Let the closing connection \<open>c1\<close> be bound to a
  room id and a user id that are both truthy and can both be converted to strings, let
  the room store another connection
  \<open>c2\<close> under that user id, and let no \<open>send\<close> to a remaining participant raise. Then
  the close handler of \<open>c1\<close> deletes the entry of the user id, which is the reference to
  \<open>c2\<close>; the room leaves the directory exactly when that entry was its only one; the
  \<open>leave_room\<close> notice naming the user id goes to the remaining participants whose socket
  is \<open>OPEN\<close>; and \<open>c2\<close> stays in the registry.
\<close>

lemma close_removes_by_bound_ids:
  assumes "rooms_ok s"
    and "truthy (currentRoomId s c1)" and "truthy (userId s c1)"
    and "\<not> toString_raises (userId s c1)" and "\<not> toString_raises (currentRoomId s c1)"
    and "map_of (participants_of s (currentRoomId s c1)) (userId s c1) = Some c2"
    and "c2 \<noteq> c1"
    and "\<forall>(pid, c') \<in> set (AList.delete (userId s c1) (participants_of s (currentRoomId s c1))).
           readyState s c' = OPEN \<longrightarrow> \<not> sendThrows s c'"
  shows "map_of (participants_of (on_close s c1) (currentRoomId s c1)) (userId s c1) = None
       \<and> participants_of (on_close s c1) (currentRoomId s c1) =
           AList.delete (userId s c1) (participants_of s (currentRoomId s c1))
       \<and> (currentRoomId s c1 \<in> set (room_ids (on_close s c1))) =
           (1 < length (participants_of s (currentRoomId s c1)))
       \<and> deliveries s (on_close s c1) =
           map (\<lambda>(pid, c'). (c', LeaveRoomNotice (stringified (currentRoomId s c1))
                                    (stringified (userId s c1))))
             (filter (\<lambda>(pid, c'). readyState s c' = OPEN)
               (AList.delete (userId s c1) (participants_of s (currentRoomId s c1))))
       \<and> (c2 \<in> set (connections (on_close s c1))) = (c2 \<in> set (connections s))"
  using on_close_bound [OF assms(1-6) assms(8)] assms(7) by simp

text \<open>
  C10. The guard of the close handler, \<open>currentRoomId && userId\<close>, is false for the
  user id \<open>0\<close> (and for the room id \<open>""\<close>), which \<open>join_room\<close> accepts and stores.
  Connection 1 joins r1 as user 0, connection 2 joins r1 as user 0 after it, user 9 is in
  the room on connection 3. When connection 1 closes, the entry of user 0 is not removed
  and user 9 is sent nothing. With user id 7 in the place of 0, the entry (the reference
  to connection 2) is removed and user 9 is sent the \<open>leave_room\<close> naming user 7.
\<close>

theorem close_keeps_entry_of_user_zero:
  "userId (run init [Connection 1, Connection 2, Connection 3,
       Message 1 (join (JStr ''r1'') (JNum 0)), Message 2 (join (JStr ''r1'') (JNum 0)),
       Message 3 (join (JStr ''r1'') (JNum 9))]) 1 = JNum 0
   \<and> participants_of (run init [Connection 1, Connection 2, Connection 3,
       Message 1 (join (JStr ''r1'') (JNum 0)), Message 2 (join (JStr ''r1'') (JNum 0)),
       Message 3 (join (JStr ''r1'') (JNum 9))]) (JStr ''r1'') = [(JNum 0, 2), (JNum 9, 3)]
   \<and> participants_of (step (run init [Connection 1, Connection 2, Connection 3,
       Message 1 (join (JStr ''r1'') (JNum 0)), Message 2 (join (JStr ''r1'') (JNum 0)),
       Message 3 (join (JStr ''r1'') (JNum 9))]) (Close 1)) (JStr ''r1'')
     = [(JNum 0, 2), (JNum 9, 3)]
   \<and> deliveries
       (run init [Connection 1, Connection 2, Connection 3,
         Message 1 (join (JStr ''r1'') (JNum 0)), Message 2 (join (JStr ''r1'') (JNum 0)),
         Message 3 (join (JStr ''r1'') (JNum 9))])
       (step (run init [Connection 1, Connection 2, Connection 3,
         Message 1 (join (JStr ''r1'') (JNum 0)), Message 2 (join (JStr ''r1'') (JNum 0)),
         Message 3 (join (JStr ''r1'') (JNum 9))]) (Close 1)) = []
   \<and> participants_of (step (run init [Connection 1, Connection 2, Connection 3,
       Message 1 (join (JStr ''r1'') (JNum 7)), Message 2 (join (JStr ''r1'') (JNum 7)),
       Message 3 (join (JStr ''r1'') (JNum 9))]) (Close 1)) (JStr ''r1'')
     = [(JNum 9, 3)]
   \<and> deliveries
       (run init [Connection 1, Connection 2, Connection 3,
         Message 1 (join (JStr ''r1'') (JNum 7)), Message 2 (join (JStr ''r1'') (JNum 7)),
         Message 3 (join (JStr ''r1'') (JNum 9))])
       (step (run init [Connection 1, Connection 2, Connection 3,
         Message 1 (join (JStr ''r1'') (JNum 7)), Message 2 (join (JStr ''r1'') (JNum 7)),
         Message 3 (join (JStr ''r1'') (JNum 9))]) (Close 1))
     = [(3, LeaveRoomNotice (JStr ''r1'') (JNum 7))]"
  by (simp add: handler_defs)

text \<open>
  So a participant with the user id \<open>0\<close> is never removed, and its room stays in the
  directory when the last connection is gone.
\<close>

lemma close_keeps_falsy_user_id:
  "participants_of (run init [Connection 1, Message 1 (join (JStr ''r1'') (JNum 0)), Close 1])
     (JStr ''r1'') = [(JNum 0, 1)]
   \<and> connections (run init [Connection 1, Message 1 (join (JStr ''r1'') (JNum 0)), Close 1]) = []"
  by (simp add: handler_defs)




text \<open>
  A user id that cannot be converted to a string is stored by \<open>join_room\<close> all the same
  (the log line raises after \<open>participants.set\<close>). When its connection closes, the log
  line after \<open>participants.delete\<close> raises: the room stays in the directory, empty.
\<close>

lemma close_with_unprintable_user_id:
  "rooms (run init [Connection 1, Message 1 (join (JStr ''r1'') (JObject 1 True))])
     = [(JStr ''r1'', [(JObject 1 True, 1)])]
   \<and> rooms (run init [Connection 1, Message 1 (join (JStr ''r1'') (JObject 1 True)), Close 1])
     = [(JStr ''r1'', [])]
   \<and> uncaught (run init [Connection 1, Message 1 (join (JStr ''r1'') (JObject 1 True)), Close 1])
     = 1"
  by (simp add: handler_defs)

text \<open>
  A user id that is not a finite number (\<open>1e400\<close> parses to \<open>Infinity\<close>) is a key like
  any other, and the notices carry it as \<open>null\<close>.
\<close>

lemma notice_writes_infinity_as_null:
  "sent (run init [Connection 1, Connection 2, Message 1 (join (JStr ''r1'') (JNum 7)),
       Message 2 (join (JStr ''r1'') JPosInf), Close 2])
     = [(1, JoinRoomNotice (JStr ''r1'') JNull (JStr ''u'')),
        (1, LeaveRoomNotice (JStr ''r1'') JNull)]
   \<and> rooms (run init [Connection 1, Connection 2, Message 1 (join (JStr ''r1'') (JNum 7)),
       Message 2 (join (JStr ''r1'') JPosInf)])
     = [(JStr ''r1'', [(JNum 7, 1), (JPosInf, 2)])]"
  by (simp add: handler_defs)

subsection \<open>Who receives a broadcast\<close>

lemma sent_catch_message:
  "sent (catch_message s ws) =
     sent s @ (if readyState s ws = OPEN \<and> \<not> sendThrows s ws
               then [(ws, ErrorNotice ''Failed to process message'')] else [])"
  by (simp add: catch_message_def ws_send_def Let_def)

lemma sent_on_update:
  "sent (ends (on_update k s ws m)) =
     sent s @
       (if truthy (currentRoomId s ws) \<and> truthy (userId s ws) then
          map (\<lambda>(pid, c). (c, Verbatim (stringified_message m)))
            (filter (\<lambda>(pid, c). \<not> sendThrows s c)
              (takeWhile (\<lambda>(pid, c). \<not> (sendThrows s c \<and> toString_raises pid))
                (filter (\<lambda>(pid, c). pid \<noteq> userId s ws \<and> readyState s c = OPEN)
                  (participants_of s (currentRoomId s ws)))))
        else [])"
  by (simp add: on_update_def fan_out_char participants_of_def Let_def split: option.splits)

lemma sent_join_room:
  "sent (ends (join_room s ws m)) =
     sent s @
       (if toString_raises (msg_userId m) \<or> toString_raises (msg_roomId m) then []
        else map (\<lambda>(pid, c). (c, JoinRoomNotice (stringified (msg_roomId m))
                                 (stringified (msg_userId m)) (stringified (msg_username m))))
               (takeWhile (\<lambda>(pid, c). \<not> sendThrows s c)
                 (filter (\<lambda>(pid, c). pid \<noteq> msg_userId m \<and> readyState s c = OPEN)
                   (AList.update (msg_userId m) ws (participants_of s (msg_roomId m))))))"
  by (auto simp: join_room_def participants_of_def notify_join_char Let_def AList.update_conv'
      split: option.splits)

lemma deliveries_append: "sent s' = sent s @ ds \<Longrightarrow> deliveries s s' = ds"
  by (simp add: deliveries_def)

lemma others_mem: "(pid, c) \<in> set ps \<Longrightarrow> pid \<noteq> u \<Longrightarrow> c \<in> set (others u ps)"
  by (force simp: others_def)

lemma deliveries_join_room:
  "set (deliveries s (ends (join_room s ws m))) \<subseteq>
     set (others (msg_userId m)
            (participants_of (ends (join_room s ws m)) (msg_roomId m))) \<times> UNIV"
proof (cases "toString_raises (msg_userId m) \<or> toString_raises (msg_roomId m)")
  case True
  then have "deliveries s (ends (join_room s ws m)) = []"
    by (intro deliveries_append) (simp add: sent_join_room)
  then show ?thesis by simp
next
  case False
  then have "participants_of (ends (join_room s ws m)) (msg_roomId m) =
      AList.update (msg_userId m) ws (participants_of s (msg_roomId m))"
    by (simp add: participants_of_def rooms_join_room AList.update_conv')
  moreover from False have "deliveries s (ends (join_room s ws m)) =
      map (\<lambda>(pid, c). (c, JoinRoomNotice (stringified (msg_roomId m))
                                 (stringified (msg_userId m)) (stringified (msg_username m))))
               (takeWhile (\<lambda>(pid, c). \<not> sendThrows s c)
                 (filter (\<lambda>(pid, c). pid \<noteq> msg_userId m \<and> readyState s c = OPEN)
                   (AList.update (msg_userId m) ws (participants_of s (msg_roomId m)))))"
    by (intro deliveries_append) (simp add: sent_join_room)
  ultimately show ?thesis
    by (auto dest!: set_takeWhileD intro: others_mem)
qed

lemma participants_of_same_rooms:
  "rooms s' = rooms s \<Longrightarrow> participants_of s' r = participants_of s r"
  by (simp add: participants_of_def)

lemma deliveries_update:
  "set (deliveries s (ends (on_update k s ws m))) \<subseteq>
     set (others (userId s ws) (participants_of s (currentRoomId s ws)))
       \<times> {Verbatim (stringified_message m)}"
  by (auto simp: deliveries_def sent_on_update dest!: set_takeWhileD intro: others_mem)

lemma deliveries_same [simp]: "deliveries s s = []"
  by (simp add: deliveries_def)

lemma deliveries_try_message:
  "set (deliveries s (ends (try_message s ws data))) \<subseteq>
     set (others (userId (ends (try_message s ws data)) ws)
            (participants_of (ends (try_message s ws data))
               (currentRoomId (ends (try_message s ws data)) ws))) \<times> UNIV"
proof (cases data)
  case (ParsedObject m)
  show ?thesis
    using deliveries_join_room [of s ws m]
      deliveries_update [of s CodeUpdate ws m] deliveries_update [of s CursorUpdate ws m]
    by (auto simp: ParsedObject try_message_def
        participants_of_same_rooms [of "ends (on_update CodeUpdate s ws m)" s]
        participants_of_same_rooms [of "ends (on_update CursorUpdate s ws m)" s])
qed (simp_all add: try_message_def)

lemma deliveries_on_message:
  "set (deliveries s (on_message s ws data)) \<subseteq>
     insert (ws, ErrorNotice ''Failed to process message'')
       (set (others (userId (on_message s ws data) ws)
              (participants_of (on_message s ws data) (currentRoomId (on_message s ws data) ws)))
        \<times> UNIV)"
proof -
  let ?t = "ends (try_message s ws data)"
  have len: "length (sent s) \<le> length (sent ?t)"
    by (cases data)
      (simp_all add: try_message_def sent_join_room sent_on_update)
  from on_message_ends [of s ws data] show ?thesis
  proof
    assume "on_message s ws data = ?t"
    with deliveries_try_message [of s ws data] show ?thesis by auto
  next
    assume c: "on_message s ws data = catch_message ?t ws"
    have "deliveries s (catch_message ?t ws) =
        deliveries s ?t @ (if readyState ?t ws = OPEN \<and> \<not> sendThrows ?t ws
               then [(ws, ErrorNotice ''Failed to process message'')] else [])"
      using len by (simp add: deliveries_def sent_catch_message)
    moreover have "participants_of (catch_message ?t ws) = participants_of ?t"
      by (rule ext) (simp add: participants_of_def)
    ultimately show ?thesis
      using deliveries_try_message [of s ws data] by (auto simp: c)
  qed
qed

lemma deliveries_on_close:
  "set (deliveries s (on_close s ws)) \<subseteq>
     set (others (userId s ws) (participants_of s (currentRoomId s ws)))
       \<times> {LeaveRoomNotice (stringified (currentRoomId s ws)) (stringified (userId s ws))}"
  by (auto simp: deliveries_def sent_on_close participants_of_def AList.delete_eq
      split: option.splits dest!: set_takeWhileD intro: others_mem)


text \<open>
  C3, as the code has it. A broadcast leaves out the entry of the excluded user id, not
  the sender's socket. Whatever the message handler sends goes to a socket that the
  sender's room stores under a user id other than the sender's, the error notice to the
  sender apart; whatever the close handler sends goes to a socket that the room stored
  under a user id other than the closing connection's. So a sender whose socket the room
  stores under no other user id gets nothing back but, possibly, the error notice.
\<close>

theorem broadcast_goes_to_other_ids:
  "set (deliveries s (on_message s ws data)) \<subseteq>
     insert (ws, ErrorNotice ''Failed to process message'')
       (set (others (userId (on_message s ws data) ws)
              (participants_of (on_message s ws data) (currentRoomId (on_message s ws data) ws)))
        \<times> UNIV)
   \<and> set (deliveries s (on_close s ws)) \<subseteq>
       set (others (userId s ws) (participants_of s (currentRoomId s ws)))
         \<times> {LeaveRoomNotice (stringified (currentRoomId s ws)) (stringified (userId s ws))}
   \<and> (ws \<notin> set (others (userId (on_message s ws data) ws)
              (participants_of (on_message s ws data) (currentRoomId (on_message s ws data) ws)))
        \<longrightarrow> (\<forall>p. (ws, p) \<in> set (deliveries s (on_message s ws data))
               \<longrightarrow> p = ErrorNotice ''Failed to process message''))"
  using deliveries_on_message [of s ws data] deliveries_on_close [of s ws]
  by auto

theorem broadcast_goes_to_other_ids_witness:
  "deliveries
     (run init [Connection 1, Connection 2, Message 1 (join (JStr ''r1'') (JNum 7)),
        Message 2 (join (JStr ''r1'') (JNum 8))])
     (on_message
       (run init [Connection 1, Connection 2, Message 1 (join (JStr ''r1'') (JNum 7)),
          Message 2 (join (JStr ''r1'') (JNum 8))])
       1 (code_update (JStr ''r1'') (JNum 7)))
     = [(2, Verbatim (mk_message ''code_update'' (JStr ''r1'') (JNum 7)))]
   \<and> others (JNum 7)
       (participants_of
         (run init [Connection 1, Connection 2, Message 1 (join (JStr ''r1'') (JNum 7)),
            Message 2 (join (JStr ''r1'') (JNum 8))]) (JStr ''r1'')) = [2]
   \<and> deliveries
     (run init [Connection 1, Connection 2, Message 1 (join (JStr ''r1'') (JNum 7)),
        Message 2 (join (JStr ''r1'') (JNum 8))])
     (on_close
       (run init [Connection 1, Connection 2, Message 1 (join (JStr ''r1'') (JNum 7)),
          Message 2 (join (JStr ''r1'') (JNum 8))]) 1)
     = [(2, LeaveRoomNotice (JStr ''r1'') (JNum 7))]"
  using broadcast_goes_to_other_ids
    [of "run init [Connection 1, Connection 2, Message 1 (join (JStr ''r1'') (JNum 7)),
          Message 2 (join (JStr ''r1'') (JNum 8))]" 1 "code_update (JStr ''r1'') (JNum 7)"]
  by (simp add: handler_defs others_def)

text \<open>
  The claim as stated fails for a connection that joined its room under two user ids:
  connection 1 joins r1 as user 7 and then as user 9. Its \<open>code_update\<close> skips the entry
  of user 9 and is sent to the socket stored under user 7, which is connection 1 itself.
\<close>

theorem sender_receives_own_update:
  "userId (run init [Connection 1, Message 1 (join (JStr ''r1'') (JNum 7)),
        Message 1 (join (JStr ''r1'') (JNum 9))]) 1 = JNum 9
   \<and> participants_of (run init [Connection 1, Message 1 (join (JStr ''r1'') (JNum 7)),
        Message 1 (join (JStr ''r1'') (JNum 9))]) (JStr ''r1'') = [(JNum 7, 1), (JNum 9, 1)]
   \<and> deliveries
       (run init [Connection 1, Message 1 (join (JStr ''r1'') (JNum 7)),
          Message 1 (join (JStr ''r1'') (JNum 9))])
       (step
         (run init [Connection 1, Message 1 (join (JStr ''r1'') (JNum 7)),
            Message 1 (join (JStr ''r1'') (JNum 9))])
         (Message 1 (code_update (JStr ''r1'') (JNum 9))))
     = [(1, Verbatim (mk_message ''code_update'' (JStr ''r1'') (JNum 9)))]"
  by (simp add: handler_defs)


subsection \<open>Malformed frames\<close>

text \<open>
  C4, as the code has it. A frame that \<open>JSON.parse\<close> rejects, or that parses to
  \<open>null\<close>, is answered from the \<open>catch\<close>: when the sender's socket is \<open>OPEN\<close> and its
  \<open>send\<close> does not raise, exactly one error notice goes to the sender and nothing to
  anybody else; when the socket is not \<open>OPEN\<close>, nothing is sent at all. In both cases
  the directory, the registry and every binding stay as they are: only the log grows.
\<close>

theorem malformed_frame_error_only:
  assumes "data = Unparseable \<or> data = ParsedNull"
  shows "(readyState s ws = OPEN \<and> \<not> sendThrows s ws \<longrightarrow>
            on_message s ws data =
              s\<lparr>diagnostics := diagnostics s @ [ErrorMessage],
                sent := sent s @ [(ws, ErrorNotice ''Failed to process message'')]\<rparr>)
       \<and> (readyState s ws \<noteq> OPEN \<longrightarrow>
            on_message s ws data = s\<lparr>diagnostics := diagnostics s @ [ErrorMessage]\<rparr>)"
  using assms
  by (auto simp: on_message_def try_message_def catch_message_def ws_send_def)

theorem malformed_frame_error_only_witness:
  "deliveries
     (run init [Connection 1, Connection 2, Message 1 (join (JStr ''r1'') (JNum 7)),
        Message 2 (join (JStr ''r1'') (JNum 8))])
     (on_message
       (run init [Connection 1, Connection 2, Message 1 (join (JStr ''r1'') (JNum 7)),
          Message 2 (join (JStr ''r1'') (JNum 8))]) 2 Unparseable)
     = [(2, ErrorNotice ''Failed to process message'')]
   \<and> rooms (on_message
       (run init [Connection 1, Connection 2, Message 1 (join (JStr ''r1'') (JNum 7)),
          Message 2 (join (JStr ''r1'') (JNum 8))]) 2 Unparseable)
     = [(JStr ''r1'', [(JNum 7, 1), (JNum 8, 2)])]
   \<and> connections (on_message
       (run init [Connection 1, Connection 2, Message 1 (join (JStr ''r1'') (JNum 7)),
          Message 2 (join (JStr ''r1'') (JNum 8))]) 2 Unparseable) = [1, 2]
   \<and> userId (on_message
       (run init [Connection 1, Connection 2, Message 1 (join (JStr ''r1'') (JNum 7)),
          Message 2 (join (JStr ''r1'') (JNum 8))]) 2 Unparseable) 2 = JNum 8"
proof -
  have h: "Unparseable = Unparseable \<or> Unparseable = ParsedNull" by simp
  show ?thesis
    using malformed_frame_error_only [OF h,
        of "run init [Connection 1, Connection 2, Message 1 (join (JStr ''r1'') (JNum 7)),
          Message 2 (join (JStr ''r1'') (JNum 8))]" 2]
    by (simp add: handler_defs)
qed

text \<open>
  The claim as stated fails for a frame that parses but lacks a required field: nothing
  validates the message. Connection 2 sends a \<open>join_room\<close> for r1 without \<open>userId\<close>. It
  gets no error notice; it is entered in r1 under the key \<open>undefined\<close> and bound to it,
  and user 7 is sent the notice of the join.
\<close>

theorem join_without_user_id_accepted:
  "deliveries
     (run init [Connection 1, Connection 2, Message 1 (join (JStr ''r1'') (JNum 7))])
     (step (run init [Connection 1, Connection 2, Message 1 (join (JStr ''r1'') (JNum 7))])
        (Message 2 (join (JStr ''r1'') JUndefined)))
     = [(1, JoinRoomNotice (JStr ''r1'') JUndefined (JStr ''u''))]
   \<and> rooms (step (run init [Connection 1, Connection 2, Message 1 (join (JStr ''r1'') (JNum 7))])
        (Message 2 (join (JStr ''r1'') JUndefined)))
     = [(JStr ''r1'', [(JNum 7, 1), (JUndefined, 2)])]
   \<and> rooms (run init [Connection 1, Connection 2, Message 1 (join (JStr ''r1'') (JNum 7))])
     = [(JStr ''r1'', [(JNum 7, 1)])]
   \<and> currentRoomId
       (step (run init [Connection 1, Connection 2, Message 1 (join (JStr ''r1'') (JNum 7))])
        (Message 2 (join (JStr ''r1'') JUndefined))) 2 = JStr ''r1''
   \<and> currentRoomId
       (run init [Connection 1, Connection 2, Message 1 (join (JStr ''r1'') (JNum 7))]) 2 = JNull"
  by (simp add: handler_defs)


subsection \<open>Delivery failures\<close>


subsection \<open>Errors and closes\<close>

lemma close_after_error:
  "on_close (on_error s ws) ws =
     (on_close s ws)\<lparr>cleared := cleared s @ [ws, ws],
                     diagnostics := diagnostics s @ [ErrorWebSocket]\<rparr>"
  by (simp add: on_close_def on_error_def notify_leave_char Let_def split: option.splits)


text \<open>
  C6, as the code has it. The error handler takes the connection out of the registry and
  clears its timer, and that is all: the rooms are as before and nothing is sent. The
  leave and the \<open>leave_room\<close> notice are the close handler's. A close handled after the
  error ends in the state of a close alone, but for the log and for \<open>clearInterval\<close>,
  which has then been called twice for the timer; a close with no error before it, also
  one that follows a failed heartbeat, calls it once.
\<close>

theorem error_then_close_cleanup:
  "rooms (on_error s ws) = rooms s
   \<and> sent (on_error s ws) = sent s
   \<and> connections (on_error s ws) = removeAll ws (connections s)
   \<and> pingInterval (on_error s ws) = (pingInterval s)(ws := False)
   \<and> cleared (on_error s ws) = cleared s @ [ws]
   \<and> on_close (on_error s ws) ws =
       (on_close s ws)\<lparr>cleared := cleared s @ [ws, ws],
                       diagnostics := diagnostics s @ [ErrorWebSocket]\<rparr>
   \<and> cleared (on_close s ws) = cleared s @ [ws]
   \<and> cleared (on_close (on_tick s ws pingThrows) ws) = cleared s @ [ws]"
  by (simp add: close_after_error) (simp add: on_error_def on_tick_def Let_def)

theorem error_then_close_cleanup_witness:
  "rooms (on_error
       (run init [Connection 1, Connection 2, Message 1 (join (JStr ''r1'') (JNum 7)),
          Message 2 (join (JStr ''r1'') (JNum 8))]) 1)
     = [(JStr ''r1'', [(JNum 7, 1), (JNum 8, 2)])]
   \<and> connections (on_error
       (run init [Connection 1, Connection 2, Message 1 (join (JStr ''r1'') (JNum 7)),
          Message 2 (join (JStr ''r1'') (JNum 8))]) 1) = [2]
   \<and> rooms (on_close (on_error
       (run init [Connection 1, Connection 2, Message 1 (join (JStr ''r1'') (JNum 7)),
          Message 2 (join (JStr ''r1'') (JNum 8))]) 1) 1)
     = [(JStr ''r1'', [(JNum 8, 2)])]
   \<and> cleared (on_close (on_error
       (run init [Connection 1, Connection 2, Message 1 (join (JStr ''r1'') (JNum 7)),
          Message 2 (join (JStr ''r1'') (JNum 8))]) 1) 1) = [1, 1]
   \<and> cleared (on_close (on_tick
       (run init [Connection 1, Connection 2, Message 1 (join (JStr ''r1'') (JNum 7)),
          Message 2 (join (JStr ''r1'') (JNum 8))]) 1 True) 1) = [1]"
  using error_then_close_cleanup
    [of "run init [Connection 1, Connection 2, Message 1 (join (JStr ''r1'') (JNum 7)),
          Message 2 (join (JStr ''r1'') (JNum 8))]" 1 True]
  by (simp add: handler_defs)

text \<open>
  The claim as stated fails: an error event does not do what a close event does, and on
  the path through an error the timer is cleared twice. Users 7 and 8 are in room r1.
  After the error event of user 7's connection, user 7 is still in the room and user 8
  has been sent nothing, where the close event removes user 7 and notifies user 8; and
  after the error event and the close event, \<open>clearInterval\<close> has been called twice.
\<close>

theorem error_leaves_room_and_clears_twice:
  "participants_of
     (step (run init [Connection 1, Connection 2, Message 1 (join (JStr ''r1'') (JNum 7)),
          Message 2 (join (JStr ''r1'') (JNum 8))]) (Error 1)) (JStr ''r1'')
     = [(JNum 7, 1), (JNum 8, 2)]
   \<and> deliveries
       (run init [Connection 1, Connection 2, Message 1 (join (JStr ''r1'') (JNum 7)),
          Message 2 (join (JStr ''r1'') (JNum 8))])
       (step (run init [Connection 1, Connection 2, Message 1 (join (JStr ''r1'') (JNum 7)),
          Message 2 (join (JStr ''r1'') (JNum 8))]) (Error 1)) = []
   \<and> participants_of
     (step (run init [Connection 1, Connection 2, Message 1 (join (JStr ''r1'') (JNum 7)),
          Message 2 (join (JStr ''r1'') (JNum 8))]) (Close 1)) (JStr ''r1'')
     = [(JNum 8, 2)]
   \<and> deliveries
       (run init [Connection 1, Connection 2, Message 1 (join (JStr ''r1'') (JNum 7)),
          Message 2 (join (JStr ''r1'') (JNum 8))])
       (step (run init [Connection 1, Connection 2, Message 1 (join (JStr ''r1'') (JNum 7)),
          Message 2 (join (JStr ''r1'') (JNum 8))]) (Close 1))
     = [(2, LeaveRoomNotice (JStr ''r1'') (JNum 7))]
   \<and> cleared
       (run init [Connection 1, Connection 2, Message 1 (join (JStr ''r1'') (JNum 7)),
          Message 2 (join (JStr ''r1'') (JNum 8)), Error 1, Close 1]) = [1, 1]"
  by (simp add: handler_defs)




subsection \<open>The rooms of a connection\<close>

lemma set_rooms_of:
  assumes "distinct (map fst (rooms s))"
  shows "set (rooms_of s c) = {r. c \<in> snd ` set (participants_of s r)}"
proof -
  have "\<And>r ps. ((r, ps) \<in> set (rooms s)) = (map_of (rooms s) r = Some ps)"
    using assms by (auto dest: map_of_SomeD)
  then show ?thesis
    by (auto simp: rooms_of_def participants_of_def split: option.splits)
      (force dest: map_of_SomeD)
qed

lemma set_update_values: "snd ` set (AList.update k v ps) \<subseteq> insert v (snd ` set ps)"
  by (induction ps) auto

lemma set_delete_values: "snd ` set (AList.delete k ps) \<subseteq> snd ` set ps"
  by (auto simp: AList.delete_eq)

lemma rooms_of_on_message:
  assumes ok: "rooms_ok s"
  shows "set (rooms_of (on_message s ws data) c) \<subseteq>
           set (rooms_of s c) \<union>
             (case data of
                ParsedObject m \<Rightarrow>
                  if c = ws \<and> msg_type m = JStr ''join_room'' then {msg_roomId m} else {}
              | _ \<Rightarrow> {})"
proof -
  have d: "distinct (map fst (rooms s))"
    and d': "distinct (map fst (rooms (on_message s ws data)))"
    using ok rooms_ok_on_message [OF ok, of ws data] by (simp_all add: rooms_ok_def)
  show ?thesis
  proof (cases "is_join data")
    case False
    then have "rooms (on_message s ws data) = rooms s"
      by (cases data) (simp_all add: rooms_on_message is_join_def)
    then show ?thesis by (auto simp: rooms_of_def)
  next
    case True
    then obtain m where m: "data = ParsedObject m" and j: "msg_type m = JStr ''join_room''"
      by (cases data) (simp_all add: is_join_def)
    from d' have d'': "distinct (map fst (rooms (on_message s ws (ParsedObject m))))"
      by (simp add: m)
    show ?thesis
      using set_update_values [of "msg_userId m" ws "participants_of s (msg_roomId m)"]
      by (auto simp: set_rooms_of [OF d] set_rooms_of [OF d''] m j participants_of_join
          split: if_splits)
  qed
qed

lemma rooms_of_on_close:
  assumes ok: "rooms_ok s"
  shows "set (rooms_of (on_close s ws) c) \<subseteq> set (rooms_of s c)"
proof -
  have d: "distinct (map fst (rooms s))"
    and d': "distinct (map fst (rooms (on_close s ws)))"
    using ok rooms_ok_on_close [OF ok, of ws] by (simp_all add: rooms_ok_def)
  show ?thesis
  proof (cases "truthy (currentRoomId s ws) \<and> truthy (userId s ws)")
    case False
    then have "rooms (on_close s ws) = rooms s" by (auto simp: rooms_on_close)
    then show ?thesis by (auto simp: rooms_of_def)
  next
    case True
    then show ?thesis
      using set_delete_values [of "userId s ws" "participants_of s (currentRoomId s ws)"]
      by (auto simp: set_rooms_of [OF d] set_rooms_of [OF d'] participants_of_on_close [OF ok]
          split: if_splits)
  qed
qed

lemma rooms_of_step:
  assumes "rooms_ok s" and "joins_only c r ev" and "set (rooms_of s c) \<subseteq> {r}"
  shows "set (rooms_of (step s ev) c) \<subseteq> {r}"
proof (cases ev)
  case (Message ws data)
  with assms(2) have "(case data of
                ParsedObject m \<Rightarrow>
                  if c = ws \<and> msg_type m = JStr ''join_room'' then {msg_roomId m} else {}
              | _ \<Rightarrow> {}) \<subseteq> {r}"
    by (auto simp: joins_only_def split: frame.splits)
  with rooms_of_on_message [OF assms(1), of ws data c] assms(3) Message show ?thesis
    by auto
next
  case (Close ws)
  from assms(1) have "rooms_ok (s\<lparr>readyState := (readyState s)(ws := CLOSED)\<rparr>)" by simp
  from rooms_of_on_close [OF this, of ws c] assms(3) Close show ?thesis by auto
qed (use assms(3) in \<open>simp_all add: rooms_of_def on_connection_def on_error_def on_tick_def Let_def\<close>)

lemma rooms_of_run:
  "\<forall>ev \<in> set evs. joins_only c r ev \<Longrightarrow> set (rooms_of (run init evs) c) \<subseteq> {r}"
proof (induction evs rule: rev_induct)
  case Nil
  show ?case by (simp add: run_def init_def rooms_of_def)
next
  case (snoc ev evs)
  then show ?case
    by (simp only: run_snoc) (rule rooms_of_step [OF rooms_ok_run], simp_all)
qed

lemma distinct_rooms_of: "rooms_ok s \<Longrightarrow> distinct (rooms_of s c)"
  by (simp add: rooms_ok_def rooms_of_def distinct_map_filter)

lemma length_le_one: "distinct xs \<Longrightarrow> set xs \<subseteq> {r} \<Longrightarrow> length xs \<le> 1"
proof -
  assume d: "distinct xs" and s: "set xs \<subseteq> {r}"
  from s have "card (set xs) \<le> card {r}" by (intro card_mono) simp_all
  with d show ?thesis by (simp add: distinct_card)
qed

text \<open>
  C7, as the code has it. Nothing takes a connection out of the room it was in when it
  joins another one, so the claim holds only as long as the \<open>join_room\<close> messages of the
  connection name one room: after any run in which every \<open>join_room\<close> on the connection
  names the room \<open>r\<close>, no room but \<open>r\<close> holds a reference to the connection, hence at
  most one room does.
\<close>

theorem one_room_when_joins_name_one_room:
  assumes "\<forall>ev \<in> set evs. joins_only c r ev"
  shows "set (rooms_of (run init evs) c) \<subseteq> {r} \<and> length (rooms_of (run init evs) c) \<le> 1"
  using rooms_of_run [OF assms]
    length_le_one [OF distinct_rooms_of [OF rooms_ok_run] rooms_of_run [OF assms]]
  by simp

theorem one_room_when_joins_name_one_room_witness:
  "rooms_of (run init [Connection 1, Connection 2, Message 1 (join (JStr ''r1'') (JNum 7)),
       Message 2 (join (JStr ''r2'') (JNum 8)), Message 1 (join (JStr ''r1'') (JNum 9)),
       Message 1 (code_update (JStr ''r2'') (JNum 9))]) 1 = [JStr ''r1'']"
proof -
  have h: "\<forall>ev \<in> set [Connection 1, Connection 2, Message 1 (join (JStr ''r1'') (JNum 7)),
       Message 2 (join (JStr ''r2'') (JNum 8)), Message 1 (join (JStr ''r1'') (JNum 9)),
       Message 1 (code_update (JStr ''r2'') (JNum 9))]. joins_only 1 (JStr ''r1'') ev"
    by (simp add: joins_only_def join_def code_update_def mk_message_def)
  show ?thesis
    using one_room_when_joins_name_one_room [OF h]
    by (simp add: handler_defs)
qed

text \<open>
  The claim as stated fails: connection 1 joins r1 and then r2. It is not taken out of
  r1, and both rooms hold a reference to it.
\<close>

theorem connection_in_two_rooms:
  "rooms (run init [Connection 1, Message 1 (join (JStr ''r1'') (JNum 7)),
       Message 1 (join (JStr ''r2'') (JNum 7))])
     = [(JStr ''r1'', [(JNum 7, 1)]), (JStr ''r2'', [(JNum 7, 1)])]
   \<and> rooms_of (run init [Connection 1, Message 1 (join (JStr ''r1'') (JNum 7)),
       Message 1 (join (JStr ''r2'') (JNum 7))]) 1 = [JStr ''r1'', JStr ''r2'']"
  by (simp add: handler_defs)

end
